theory Spec2Isabelle
  imports Main "HOL-Library.Word"
begin

section \<open>JavaScript strings, errors and values\<close>

text \<open>
  A JavaScript string is a sequence of 16-bit code units. Nothing forces surrogates to be
  paired, so every list of code units is a string the storage can be handed as a key or
  as a value.
\<close>

type_synonym code_unit = "16 word"
type_synonym jsstring = "code_unit list"

text \<open>The code units of an ASCII literal of the source.\<close>

definition js :: "string \<Rightarrow> jsstring" where
  "js s = map of_char s"

text \<open>
  The exceptions the code meets carry a message; \<open>new Error(...)\<close> builds the first kind,
  the URI builtins throw the second.
\<close>

datatype error = Error jsstring | URIError jsstring

fun message :: "error \<Rightarrow> jsstring" where
  "message (Error m) = m"
| "message (URIError m) = m"

text \<open>What an operation of the storage resolves with: nothing, a string or an array of strings.\<close>

datatype jsval = Undefined | Str jsstring | Arr "jsstring list"

text \<open>\<open>Array.prototype.join\<close> with a separator string.\<close>

fun join_js :: "jsstring \<Rightarrow> jsstring list \<Rightarrow> jsstring" where
  "join_js sep [] = []"
| "join_js sep [p] = p"
| "join_js sep (p # q # ps) = p @ sep @ join_js sep (q # ps)"

text \<open>
  \<open>String.prototype.split\<close> for a separator of one code unit, the only way the source
  calls it: the empty string splits into one empty part.
\<close>

fun split_js :: "code_unit \<Rightarrow> jsstring \<Rightarrow> jsstring list" where
  "split_js sep [] = [[]]"
| "split_js sep (c # cs) =
     (if c = sep then [] # split_js sep cs
      else (c # hd (split_js sep cs)) # tl (split_js sep cs))"

section \<open>The path resolver\<close>

text \<open>
  \<^verbatim>\<open>paths.join('/').split('/').filter((part) => part && part !== '.').join('/')\<close>:
  a part is kept when it is truthy (a non-empty string) and differs from \<open>.\<close>.
\<close>

definition keep_part :: "jsstring \<Rightarrow> bool" where
  "keep_part part \<longleftrightarrow> part \<noteq> [] \<and> part \<noteq> js ''.''"

definition resolvePath :: "jsstring list \<Rightarrow> jsstring" where
  "resolvePath paths =
     join_js (js ''/'') (filter keep_part (split_js 0x2F (join_js (js ''/'') paths)))"

section \<open>The URI builtins\<close>

text \<open>
  \<open>encodeURIComponent\<close> and \<open>decodeURIComponent\<close> as ECMA-262 defines them (the abstract
  operations Encode and Decode). The unescaped set of \<open>encodeURIComponent\<close> is the ASCII
  letters and digits and \<^verbatim>\<open>- _ . ! ~ * ' ( )\<close>.
\<close>

definition uri_malformed :: error where
  "uri_malformed = URIError (js ''URI malformed'')"

definition uriUnescaped :: "code_unit \<Rightarrow> bool" where
  "uriUnescaped c \<longleftrightarrow>
     (0x41 \<le> unat c \<and> unat c \<le> 0x5A) \<or> (0x61 \<le> unat c \<and> unat c \<le> 0x7A) \<or>
     (0x30 \<le> unat c \<and> unat c \<le> 0x39) \<or>
     unat c \<in> set [0x2D, 0x5F, 0x2E, 0x21, 0x7E, 0x2A, 0x27, 0x28, 0x29]"

definition is_leading_surrogate :: "code_unit \<Rightarrow> bool" where
  "is_leading_surrogate c \<longleftrightarrow> 0xD800 \<le> unat c \<and> unat c \<le> 0xDBFF"

definition is_trailing_surrogate :: "code_unit \<Rightarrow> bool" where
  "is_trailing_surrogate c \<longleftrightarrow> 0xDC00 \<le> unat c \<and> unat c \<le> 0xDFFF"

text \<open>
  CodePointAt, on the rest of the string from the position read: the code point, the
  number of code units it takes and whether it is an unpaired surrogate.
\<close>

record code_point_record =
  CodePoint :: nat
  CodeUnitCount :: nat
  IsUnpairedSurrogate :: bool

definition CodePointAt :: "code_unit \<Rightarrow> jsstring \<Rightarrow> code_point_record" where
  "CodePointAt first rest =
     (if \<not> is_leading_surrogate first \<and> \<not> is_trailing_surrogate first
      then \<lparr>CodePoint = unat first, CodeUnitCount = 1, IsUnpairedSurrogate = False\<rparr>
      else if is_trailing_surrogate first \<or> rest = []
      then \<lparr>CodePoint = unat first, CodeUnitCount = 1, IsUnpairedSurrogate = True\<rparr>
      else if \<not> is_trailing_surrogate (hd rest)
      then \<lparr>CodePoint = unat first, CodeUnitCount = 1, IsUnpairedSurrogate = True\<rparr>
      else \<lparr>CodePoint = (unat first - 0xD800) * 0x400 + (unat (hd rest) - 0xDC00) + 0x10000,
            CodeUnitCount = 2, IsUnpairedSurrogate = False\<rparr>)"

text \<open>The UTF-8 transformation of a code point into its octets.\<close>

definition utf8_octets :: "nat \<Rightarrow> nat list" where
  "utf8_octets cp =
     (if cp < 0x80 then [cp]
      else if cp < 0x800 then [0xC0 + cp div 0x40, 0x80 + cp mod 0x40]
      else if cp < 0x10000
      then [0xE0 + cp div 0x1000, 0x80 + cp div 0x40 mod 0x40, 0x80 + cp mod 0x40]
      else [0xF0 + cp div 0x40000, 0x80 + cp div 0x1000 mod 0x40,
            0x80 + cp div 0x40 mod 0x40, 0x80 + cp mod 0x40])"

definition hex_digit :: "nat \<Rightarrow> code_unit" where
  "hex_digit d = of_nat (if d < 10 then 0x30 + d else 0x37 + d)"

definition escape_octet :: "nat \<Rightarrow> jsstring" where
  "escape_octet b = [0x25, hex_digit (b div 16), hex_digit (b mod 16)]"

text \<open>
  One step of Encode at a code unit outside the unescaped set: the escaped octets of the
  code point that starts there and the number of code units it takes, or nothing where
  Encode throws.
\<close>

definition encode_escape :: "code_unit \<Rightarrow> jsstring \<Rightarrow> (jsstring \<times> nat) option" where
  "encode_escape c cs =
     (let cp = CodePointAt c cs
      in if IsUnpairedSurrogate cp then None
         else Some (concat (map escape_octet (utf8_octets (CodePoint cp))), CodeUnitCount cp))"

fun encodeURIComponent :: "jsstring \<Rightarrow> error + jsstring" where
  "encodeURIComponent [] = Inr []"
| "encodeURIComponent (c # cs) =
     (if uriUnescaped c
      then (case encodeURIComponent cs of Inl e \<Rightarrow> Inl e | Inr R \<Rightarrow> Inr (c # R))
      else (case encode_escape c cs of
              None \<Rightarrow> Inl uri_malformed
            | Some (S, k) \<Rightarrow>
                (case encodeURIComponent (drop (k - 1) cs) of
                   Inl e \<Rightarrow> Inl e
                 | Inr R \<Rightarrow> Inr (S @ R))))"

definition hex_value :: "code_unit \<Rightarrow> nat option" where
  "hex_value c =
     (if 0x30 \<le> unat c \<and> unat c \<le> 0x39 then Some (unat c - 0x30)
      else if 0x41 \<le> unat c \<and> unat c \<le> 0x46 then Some (unat c - 0x37)
      else if 0x61 \<le> unat c \<and> unat c \<le> 0x66 then Some (unat c - 0x57)
      else None)"

text \<open>ParseHexOctet, on the code units that follow a percent sign.\<close>

definition ParseHexOctet :: "jsstring \<Rightarrow> nat option" where
  "ParseHexOctet s =
     (case s of
        h # l # _ \<Rightarrow>
          (case hex_value h of
             None \<Rightarrow> None
           | Some a \<Rightarrow> (case hex_value l of None \<Rightarrow> None | Some b \<Rightarrow> Some (16 * a + b)))
      | _ \<Rightarrow> None)"

text \<open>The number of leading 1 bits of an octet.\<close>

definition leading_ones :: "nat \<Rightarrow> nat" where
  "leading_ones B =
     (if B < 0x80 then 0 else if B < 0xC0 then 1 else if B < 0xE0 then 2
      else if B < 0xF0 then 3 else if B < 0xF8 then 4 else if B < 0xFC then 5
      else if B < 0xFE then 6 else if B < 0xFF then 7 else 8)"

text \<open>The \<open>j\<close> escaped continuation octets that must follow the first octet of a sequence.\<close>

fun continuation_octets :: "nat \<Rightarrow> jsstring \<Rightarrow> nat list option" where
  "continuation_octets 0 s = Some []"
| "continuation_octets (Suc j) s =
     (if length s < 3 \<or> hd s \<noteq> 0x25 then None
      else (case ParseHexOctet (tl s) of
              None \<Rightarrow> None
            | Some b \<Rightarrow>
                (case continuation_octets j (drop 3 s) of
                   None \<Rightarrow> None
                 | Some bs \<Rightarrow> Some (b # bs))))"

text \<open>
  The code point of a sequence of two to four octets, when the sequence is a valid UTF-8
  encoding: continuation octets in range, shortest form, no surrogate, at most 0x10FFFF.
\<close>

definition is_continuation :: "nat \<Rightarrow> bool" where
  "is_continuation b \<longleftrightarrow> 0x80 \<le> b \<and> b < 0xC0"

definition utf8_code_point :: "nat list \<Rightarrow> nat option" where
  "utf8_code_point Octets =
     (case Octets of
        [b0, b1] \<Rightarrow>
          (let V = (b0 - 0xC0) * 0x40 + (b1 - 0x80)
           in if is_continuation b1 \<and> 0x80 \<le> V then Some V else None)
      | [b0, b1, b2] \<Rightarrow>
          (let V = (b0 - 0xE0) * 0x1000 + (b1 - 0x80) * 0x40 + (b2 - 0x80)
           in if is_continuation b1 \<and> is_continuation b2 \<and> 0x800 \<le> V \<and>
                 \<not> (0xD800 \<le> V \<and> V \<le> 0xDFFF)
              then Some V else None)
      | [b0, b1, b2, b3] \<Rightarrow>
          (let V = (b0 - 0xF0) * 0x40000 + (b1 - 0x80) * 0x1000 + (b2 - 0x80) * 0x40 +
                   (b3 - 0x80)
           in if is_continuation b1 \<and> is_continuation b2 \<and> is_continuation b3 \<and>
                 0x10000 \<le> V \<and> V \<le> 0x10FFFF
              then Some V else None)
      | _ \<Rightarrow> None)"

definition UTF16EncodeCodePoint :: "nat \<Rightarrow> jsstring" where
  "UTF16EncodeCodePoint cp =
     (if cp \<le> 0xFFFF then [of_nat cp]
      else [of_nat ((cp - 0x10000) div 0x400 + 0xD800),
            of_nat ((cp - 0x10000) mod 0x400 + 0xDC00)])"

text \<open>
  One step of Decode at a percent sign, on the code units that follow it: the string the
  escape sequence stands for and the number of code units it takes after the percent
  sign, or nothing where Decode throws.
\<close>

definition decode_escape :: "jsstring \<Rightarrow> (jsstring \<times> nat) option" where
  "decode_escape cs =
     (if length cs < 2 then None
      else (case ParseHexOctet cs of
              None \<Rightarrow> None
            | Some B \<Rightarrow>
                (if leading_ones B = 0 then Some ([of_nat B], 2)
                 else if leading_ones B = 1 \<or> leading_ones B > 4 then None
                 else (case continuation_octets (leading_ones B - 1) (drop 2 cs) of
                         None \<Rightarrow> None
                       | Some Octets \<Rightarrow>
                           (case utf8_code_point (B # Octets) of
                              None \<Rightarrow> None
                            | Some V \<Rightarrow>
                                Some (UTF16EncodeCodePoint V, 2 + 3 * (leading_ones B - 1)))))))"

fun decodeURIComponent :: "jsstring \<Rightarrow> error + jsstring" where
  "decodeURIComponent [] = Inr []"
| "decodeURIComponent (C # cs) =
     (if C \<noteq> 0x25
      then (case decodeURIComponent cs of Inl e \<Rightarrow> Inl e | Inr R \<Rightarrow> Inr (C # R))
      else (case decode_escape cs of
              None \<Rightarrow> Inl uri_malformed
            | Some (S, k) \<Rightarrow>
                (case decodeURIComponent (drop k cs) of
                   Inl e \<Rightarrow> Inl e
                 | Inr R \<Rightarrow> Inr (S @ R))))"

fun map_throwing :: "('a \<Rightarrow> error + 'b) \<Rightarrow> 'a list \<Rightarrow> error + 'b list" where
  "map_throwing f [] = Inr []"
| "map_throwing f (x # xs) =
     (case f x of
        Inl e \<Rightarrow> Inl e
      | Inr y \<Rightarrow> (case map_throwing f xs of Inl e \<Rightarrow> Inl e | Inr ys \<Rightarrow> Inr (y # ys)))"

text \<open>
  A string is well formed when each of its surrogates is half of a pair: a leading
  surrogate followed by a trailing one.
\<close>

fun well_formed :: "jsstring \<Rightarrow> bool" where
  "well_formed [] = True"
| "well_formed (c # cs) =
     (if is_leading_surrogate c
      then (case cs of [] \<Rightarrow> False | d # ds \<Rightarrow> is_trailing_surrogate d \<and> well_formed ds)
      else \<not> is_trailing_surrogate c \<and> well_formed cs)"

section \<open>The providers and the state of the module\<close>

text \<open>
  The filesystem, the secure store, the cipher and the UUID generator are libraries the
  module imports. They are parameters of the model: a call acts on the world outside the
  module and either resolves with a value or rejects with an error.
\<close>

type_synonym ('w, 'a) io = "'w \<Rightarrow> (error + 'a) \<times> 'w"

type_synonym bytes = "8 word list"

record 'w providers =
  documentDirectory :: jsstring
  getInfoAsync :: "jsstring \<Rightarrow> ('w, bool) io"
  makeDirectoryAsync :: "jsstring \<Rightarrow> bool \<Rightarrow> ('w, unit) io"
  writeAsStringAsync :: "jsstring \<Rightarrow> jsstring \<Rightarrow> ('w, unit) io"
  readAsStringAsync :: "jsstring \<Rightarrow> ('w, jsstring) io"
  deleteAsync :: "jsstring \<Rightarrow> bool \<Rightarrow> ('w, unit) io"
  readDirectoryAsync :: "jsstring \<Rightarrow> ('w, jsstring list) io"
  SecureStore_getItemAsync :: "jsstring \<Rightarrow> ('w, jsstring option) io"
  SecureStore_setItemAsync :: "jsstring \<Rightarrow> jsstring \<Rightarrow> ('w, unit) io"
  uuidv4 :: "('w, jsstring) io"
  AES_encrypt :: "jsstring \<Rightarrow> jsstring \<Rightarrow> ('w, jsstring) io"
  AES_decrypt :: "jsstring \<Rightarrow> jsstring \<Rightarrow> error + bytes"
  Utf8_stringify :: "bytes \<Rightarrow> error + jsstring"

text \<open>
  \<open>getInfoAsync\<close> gives the \<open>exists\<close> field of the information it resolves with; the
  boolean of \<open>makeDirectoryAsync\<close> is its option \<open>intermediates\<close>, that of \<open>deleteAsync\<close> its
  option \<open>idempotent\<close>. \<open>AES_encrypt\<close> is \<open>AES.encrypt(value, key).toString()\<close>, which draws
  a random salt; \<open>Utf8_stringify\<close> is \<open>bytes.toString(CryptoJSCore.enc.Utf8)\<close>.

  The state is the outside world, the module-level variable \<open>encryptionKey\<close> (\<open>None\<close> for
  \<open>null\<close>) and the record of the calls made to callbacks, each with its two arguments.
\<close>

record 'w state =
  world :: 'w
  encryptionKey :: "jsstring option"
  invocations :: "(error option \<times> jsval) list"

type_synonym ('w, 'a) prog = "'w state \<Rightarrow> (error + 'a) \<times> 'w state"

definition return :: "'a \<Rightarrow> ('w, 'a) prog" where
  "return v s = (Inr v, s)"

definition throw :: "error \<Rightarrow> ('w, 'a) prog" where
  "throw e s = (Inl e, s)"

text \<open>A pure expression that may throw.\<close>

definition expr :: "error + 'a \<Rightarrow> ('w, 'a) prog" where
  "expr r s = (r, s)"

text \<open>A call of a provider.\<close>

definition call :: "('w, 'a) io \<Rightarrow> ('w, 'a) prog" where
  "call f s = (case f (world s) of (r, w) \<Rightarrow> (r, s\<lparr>world := w\<rparr>))"

text \<open>\<open>const v = await m; k\<close>: a rejection of \<open>m\<close> is thrown where it is awaited.\<close>

definition await :: "('w, 'a) prog \<Rightarrow> ('a \<Rightarrow> ('w, 'b) prog) \<Rightarrow> ('w, 'b) prog" where
  "await m k s = (case m s of (Inl e, s') \<Rightarrow> (Inl e, s') | (Inr v, s') \<Rightarrow> k v s')"

definition try_catch :: "('w, 'a) prog \<Rightarrow> (error \<Rightarrow> ('w, 'a) prog) \<Rightarrow> ('w, 'a) prog" where
  "try_catch m h s = (case m s of (Inl e, s') \<Rightarrow> h e s' | (Inr v, s') \<Rightarrow> (Inr v, s'))"

section \<open>The calling convention\<close>

text \<open>
  A callback is code of the caller: it acts on the world and returns or throws. The call
  \<open>callback(null, result)\<close> has the arguments \<open>(None, result)\<close>, the call \<open>callback(err)\<close>
  the arguments \<open>(Some err, Undefined)\<close>.
\<close>

type_synonym 'w callback = "error option \<Rightarrow> jsval \<Rightarrow> ('w, unit) io"

definition invoke :: "'w callback \<Rightarrow> error option \<Rightarrow> jsval \<Rightarrow> ('w, unit) prog" where
  "invoke callback err result s =
     call (callback err result) (s\<lparr>invocations := invocations s @ [(err, result)]\<rparr>)"

definition withCallback :: "'w callback option \<Rightarrow> ('w, jsval) prog \<Rightarrow> ('w, jsval) prog" where
  "withCallback callback func =
     try_catch
       (await func (\<lambda>result.
        await (case callback of Some cb \<Rightarrow> invoke cb None result | None \<Rightarrow> return ()) (\<lambda>_.
        return result)))
       (\<lambda>err.
          case callback of
            Some cb \<Rightarrow> await (invoke cb (Some err) Undefined) (\<lambda>_. return Undefined)
          | None \<Rightarrow> throw err)"

section \<open>The storage\<close>

definition ENCRYPTION_KEY :: jsstring where
  "ENCRYPTION_KEY = js ''expoFsSecureEncryptionKey''"

definition pathForKey :: "jsstring \<Rightarrow> jsstring \<Rightarrow> error + jsstring" where
  "pathForKey baseFolder key =
     (case encodeURIComponent key of
        Inl e \<Rightarrow> Inl e
      | Inr name \<Rightarrow> Inr (resolvePath [baseFolder, name]))"

text \<open>
  The body of \<open>if (!encryptionKeyValue)\<close>: a fresh identifier is drawn and stored in the
  secure store under the fixed name.
\<close>

definition generateKey :: "'w providers \<Rightarrow> ('w, jsstring) prog" where
  "generateKey env =
     await (call (uuidv4 env)) (\<lambda>fresh.
     await (call (SecureStore_setItemAsync env ENCRYPTION_KEY fresh)) (\<lambda>_.
     return fresh))"

text \<open>
  \<open>!encryptionKeyValue\<close> holds for \<open>null\<close> and for the empty string. The function returns
  the variable \<open>encryptionKey\<close>, which then holds the value just assigned.
\<close>

definition getEncryptionKey :: "'w providers \<Rightarrow> ('w, jsstring) prog" where
  "getEncryptionKey env =
     try_catch
       (\<lambda>s. case encryptionKey s of
          Some cached \<Rightarrow> return cached s
        | None \<Rightarrow>
            await (call (SecureStore_getItemAsync env ENCRYPTION_KEY)) (\<lambda>stored.
            await (case stored of
                     None \<Rightarrow> generateKey env
                   | Some v \<Rightarrow> if v = [] then generateKey env else return v)
              (\<lambda>encryptionKeyValue s'.
                 (Inr encryptionKeyValue, s'\<lparr>encryptionKey := Some encryptionKeyValue\<rparr>))) s)
       (\<lambda>err. throw (Error (js ''Error getting encryption key '' @ message err)))"

definition setItem ::
  "'w providers \<Rightarrow> jsstring \<Rightarrow> jsstring \<Rightarrow> jsstring \<Rightarrow> 'w callback option \<Rightarrow> ('w, jsval) prog"
where
  "setItem env baseFolder key value callback =
     withCallback callback
       (try_catch
          (await (call (getInfoAsync env baseFolder)) (\<lambda>exists.
           await (if exists = False then call (makeDirectoryAsync env baseFolder True)
                  else return ()) (\<lambda>_.
           await (getEncryptionKey env) (\<lambda>secretKey.
           await (call (AES_encrypt env value secretKey)) (\<lambda>encryptedValue.
           await (expr (pathForKey baseFolder key)) (\<lambda>path.
           await (call (writeAsStringAsync env path encryptedValue)) (\<lambda>_.
           return Undefined)))))))
          (\<lambda>err. throw (Error (js ''Error setting item: '' @ message err))))"

text \<open>
  In \<open>getItem\<close> the variable \<open>decryptedString\<close> starts as \<^verbatim>\<open>"{}"\<close>; it is assigned before
  it is read, or the function throws, so the value returned is the decoded plaintext.
\<close>

definition getItem ::
  "'w providers \<Rightarrow> jsstring \<Rightarrow> jsstring \<Rightarrow> 'w callback option \<Rightarrow> ('w, jsval) prog"
where
  "getItem env baseFolder key callback =
     withCallback callback
       (await (expr (pathForKey baseFolder key)) (\<lambda>pathKey.
        await (call (getInfoAsync env pathKey)) (\<lambda>exists.
        if exists
        then try_catch
               (await (call (readAsStringAsync env pathKey)) (\<lambda>encryptedValue.
                await (try_catch
                         (await (getEncryptionKey env) (\<lambda>secretKey.
                          await (expr (AES_decrypt env encryptedValue secretKey)) (\<lambda>bytes.
                          expr (Utf8_stringify env bytes))))
                         (\<lambda>err. throw (Error (js ''Could not decrypt state: '' @ message err))))
                  (\<lambda>decryptedString.
                return (Str decryptedString))))
               (\<lambda>err. throw (Error (js ''Error getting item: '' @ message err)))
        else return Undefined)))"

definition removeItem ::
  "'w providers \<Rightarrow> jsstring \<Rightarrow> jsstring \<Rightarrow> 'w callback option \<Rightarrow> ('w, jsval) prog"
where
  "removeItem env baseFolder key callback =
     withCallback callback
       (await (expr (pathForKey baseFolder key)) (\<lambda>path.
        await (call (deleteAsync env path True)) (\<lambda>_.
        return Undefined)))"

definition getAllKeys :: "'w providers \<Rightarrow> jsstring \<Rightarrow> 'w callback option \<Rightarrow> ('w, jsval) prog"
where
  "getAllKeys env baseFolder callback =
     withCallback callback
       (await (call (makeDirectoryAsync env baseFolder True)) (\<lambda>_.
        await (call (readDirectoryAsync env baseFolder)) (\<lambda>files.
        await (expr (map_throwing decodeURIComponent files)) (\<lambda>keys.
        return (Arr keys)))))"


definition baseFolder :: "'w providers \<Rightarrow> jsstring option \<Rightarrow> jsstring option \<Rightarrow> jsstring" where
  "baseFolder env location folder =
     resolvePath [case location of None \<Rightarrow> documentDirectory env | Some l \<Rightarrow> l,
                  case folder of None \<Rightarrow> js ''reduxPersist'' | Some f \<Rightarrow> f]"


section \<open>What the storage expects of its providers\<close>

text \<open>
  A file that has been written exists and reads back as written; the cipher decrypts,
  with the same key, what it has encrypted.
\<close>

definition reads_back :: "'w providers \<Rightarrow> bool" where
  "reads_back env \<longleftrightarrow>
     (\<forall>p c w w'. writeAsStringAsync env p c w = (Inr (), w') \<longrightarrow>
        (\<exists>w1 w2. getInfoAsync env p w' = (Inr True, w1) \<and>
                 readAsStringAsync env p w1 = (Inr c, w2)))"

definition cipher_inverts :: "'w providers \<Rightarrow> bool" where
  "cipher_inverts env \<longleftrightarrow>
     (\<forall>v k w c w'. AES_encrypt env v k w = (Inr c, w') \<longrightarrow>
        (\<exists>b. AES_decrypt env c k = Inr b \<and> Utf8_stringify env b = Inr v))"

section \<open>Histories of operations\<close>







text \<open>
  The deletion with the option \<open>idempotent\<close>: it resolves, nothing exists at the path
  afterwards, and where nothing existed the world is left as it was.
\<close>

definition deletes_idempotently :: "'w providers \<Rightarrow> ('w \<Rightarrow> jsstring \<Rightarrow> bool) \<Rightarrow> bool" where
  "deletes_idempotently env ex \<longleftrightarrow>
     (\<forall>p w. \<exists>w'. deleteAsync env p True w = (Inr (), w') \<and> \<not> ex w' p \<and>
        (\<not> ex w p \<longrightarrow> w' = w))"


section \<open>An in-memory provider\<close>

text \<open>
  A small provider on which the storage can be run: files and directories by path, the
  secure store by name, a supply of identifiers, and a cipher that prefixes the plaintext
  with the key and refuses a ciphertext that does not start with the key it is given.
\<close>

record mem_world =
  mem_files :: "(jsstring \<times> jsstring) list"
  mem_dirs :: "jsstring list"
  mem_secrets :: "(jsstring \<times> jsstring) list"
  mem_uuids :: "jsstring list"

definition mem_exists :: "jsstring \<Rightarrow> mem_world \<Rightarrow> bool" where
  "mem_exists p w \<longleftrightarrow> p \<in> set (mem_dirs w) \<or> p \<in> set (map fst (mem_files w))"

fun strip_prefix :: "jsstring \<Rightarrow> jsstring \<Rightarrow> jsstring option" where
  "strip_prefix [] s = Some s"
| "strip_prefix (a # as) [] = None"
| "strip_prefix (a # as) (b # bs) = (if a = b then strip_prefix as bs else None)"

definition mem_getInfo :: "jsstring \<Rightarrow> (mem_world, bool) io" where
  "mem_getInfo p w = (Inr (mem_exists p w), w)"

definition mem_makeDirectory :: "jsstring \<Rightarrow> bool \<Rightarrow> (mem_world, unit) io" where
  "mem_makeDirectory p intermediates w =
     (if p \<in> set (map fst (mem_files w)) then (Inl (Error (js ''Directory could not be created'')), w)
      else (Inr (), w\<lparr>mem_dirs := p # filter (\<lambda>d. d \<noteq> p) (mem_dirs w)\<rparr>))"

definition mem_write :: "jsstring \<Rightarrow> jsstring \<Rightarrow> (mem_world, unit) io" where
  "mem_write p c w =
     (if p \<in> set (mem_dirs w) then (Inl (Error (js ''File is a directory'')), w)
      else (Inr (), w\<lparr>mem_files := (p, c) # filter (\<lambda>e. fst e \<noteq> p) (mem_files w)\<rparr>))"

definition mem_read :: "jsstring \<Rightarrow> (mem_world, jsstring) io" where
  "mem_read p w =
     (case map_of (mem_files w) p of
        None \<Rightarrow> (Inl (Error (js ''File could not be read'')), w)
      | Some c \<Rightarrow> (Inr c, w))"

definition mem_delete :: "jsstring \<Rightarrow> bool \<Rightarrow> (mem_world, unit) io" where
  "mem_delete p idempotent w =
     (if mem_exists p w
      then (Inr (), w\<lparr>mem_files := filter (\<lambda>e. fst e \<noteq> p) (mem_files w),
                      mem_dirs := filter (\<lambda>d. d \<noteq> p) (mem_dirs w)\<rparr>)
      else if idempotent then (Inr (), w)
      else (Inl (Error (js ''File could not be deleted because it could not be found'')), w))"

definition mem_entry :: "jsstring \<Rightarrow> jsstring \<Rightarrow> jsstring option" where
  "mem_entry p q =
     (case strip_prefix (p @ js ''/'') q of
        None \<Rightarrow> None
      | Some name \<Rightarrow> if name \<noteq> [] \<and> 0x2F \<notin> set name then Some name else None)"

definition mem_readDirectory :: "jsstring \<Rightarrow> (mem_world, jsstring list) io" where
  "mem_readDirectory p w =
     (if p \<in> set (mem_dirs w) then (Inr (List.map_filter (\<lambda>e. mem_entry p (fst e)) (mem_files w)), w)
      else (Inl (Error (js ''Directory could not be read'')), w))"

definition mem_getSecret :: "jsstring \<Rightarrow> (mem_world, jsstring option) io" where
  "mem_getSecret name w = (Inr (map_of (mem_secrets w) name), w)"

definition mem_setSecret :: "jsstring \<Rightarrow> jsstring \<Rightarrow> (mem_world, unit) io" where
  "mem_setSecret name v w =
     (Inr (), w\<lparr>mem_secrets := (name, v) # filter (\<lambda>e. fst e \<noteq> name) (mem_secrets w)\<rparr>)"

definition mem_uuidv4 :: "(mem_world, jsstring) io" where
  "mem_uuidv4 w =
     (case mem_uuids w of
        [] \<Rightarrow> (Inr (js ''00000000-0000-4000-8000-000000000000''), w)
      | u # us \<Rightarrow> (Inr u, w\<lparr>mem_uuids := us\<rparr>))"

definition mem_encrypt :: "jsstring \<Rightarrow> jsstring \<Rightarrow> (mem_world, jsstring) io" where
  "mem_encrypt v key w = (Inr (key @ js '':'' @ v), w)"

definition unit_bytes :: "code_unit \<Rightarrow> bytes" where
  "unit_bytes c = [of_nat (unat c div 256), of_nat (unat c mod 256)]"

definition mem_decrypt :: "jsstring \<Rightarrow> jsstring \<Rightarrow> error + bytes" where
  "mem_decrypt c key =
     (case strip_prefix (key @ js '':'') c of
        None \<Rightarrow> Inl (Error (js ''Malformed UTF-8 data''))
      | Some v \<Rightarrow> Inr (concat (map unit_bytes v)))"

fun mem_stringify :: "bytes \<Rightarrow> error + jsstring" where
  "mem_stringify [] = Inr []"
| "mem_stringify [b] = Inl (Error (js ''Malformed UTF-8 data''))"
| "mem_stringify (hi # lo # bs) =
     (case mem_stringify bs of
        Inl e \<Rightarrow> Inl e
      | Inr R \<Rightarrow> Inr (of_nat (unat hi * 256 + unat lo) # R))"

definition mem_env :: "mem_world providers" where
  "mem_env =
     \<lparr>documentDirectory = js ''file:///data/files/'',
      getInfoAsync = mem_getInfo,
      makeDirectoryAsync = mem_makeDirectory,
      writeAsStringAsync = mem_write,
      readAsStringAsync = mem_read,
      deleteAsync = mem_delete,
      readDirectoryAsync = mem_readDirectory,
      SecureStore_getItemAsync = mem_getSecret,
      SecureStore_setItemAsync = mem_setSecret,
      uuidv4 = mem_uuidv4,
      AES_encrypt = mem_encrypt,
      AES_decrypt = mem_decrypt,
      Utf8_stringify = mem_stringify\<rparr>"

definition mem_empty :: mem_world where
  "mem_empty = \<lparr>mem_files = [], mem_dirs = [], mem_secrets = [], mem_uuids = []\<rparr>"

definition fresh_state :: "'w \<Rightarrow> 'w state" where
  "fresh_state w = \<lparr>world = w, encryptionKey = None, invocations = []\<rparr>"

section \<open>The path resolver: splitting and joining\<close>

lemma js_slash: "js ''/'' = [0x2F]"
  by (simp add: js_def)

lemma split_js_not_Nil: "split_js sep s \<noteq> []"
  by (induction s) auto

lemma split_js_append_sep:
  "split_js sep (p @ sep # q) = split_js sep p @ split_js sep q"
proof (induction p)
  case Nil
  show ?case by simp
next
  case (Cons c p)
  have ne: "split_js sep p \<noteq> []" by (rule split_js_not_Nil)
  show ?case
  proof (cases "c = sep")
    case True
    with Cons show ?thesis by simp
  next
    case False
    with Cons ne show ?thesis by (cases "split_js sep p") simp_all
  qed
qed

lemma split_js_join_Cons:
  "split_js sep (join_js [sep] (p # ps)) = concat (map (split_js sep) (p # ps))"
proof (induction ps arbitrary: p)
  case Nil
  show ?case by simp
next
  case (Cons q ps)
  have "split_js sep (join_js [sep] (p # q # ps)) =
        split_js sep (p @ sep # join_js [sep] (q # ps))" by simp
  also have "\<dots> = split_js sep p @ split_js sep (join_js [sep] (q # ps))"
    by (rule split_js_append_sep)
  also have "\<dots> = concat (map (split_js sep) (p # q # ps))"
    using Cons.IH[of q] by simp
  finally show ?case .
qed

lemma split_js_join:
  "ps \<noteq> [] \<Longrightarrow> split_js sep (join_js [sep] ps) = concat (map (split_js sep) ps)"
  by (cases ps) (simp_all add: split_js_join_Cons del: join_js.simps split_js.simps)

lemma split_js_parts_no_sep: "p \<in> set (split_js sep s) \<Longrightarrow> sep \<notin> set p"
proof (induction s arbitrary: p)
  case Nil
  then show ?case by simp
next
  case (Cons c s)
  have ne: "split_js sep s \<noteq> []" by (rule split_js_not_Nil)
  then obtain h t where ht: "split_js sep s = h # t" by (cases "split_js sep s") auto
  show ?case
  proof (cases "c = sep")
    case True
    with Cons show ?thesis by auto
  next
    case False
    with Cons.prems ht have "p = c # h \<or> p \<in> set t" by simp
    moreover have "sep \<notin> set h" using Cons.IH[of h] ht by simp
    moreover have "p \<in> set t \<Longrightarrow> sep \<notin> set p" using Cons.IH[of p] ht by simp
    ultimately show ?thesis using False by auto
  qed
qed

lemma split_js_no_sep: "sep \<notin> set s \<Longrightarrow> split_js sep s = [s]"
  by (induction s) auto

lemma concat_split_parts:
  "\<forall>p \<in> set ps. sep \<notin> set p \<Longrightarrow> concat (map (split_js sep) ps) = ps"
  by (induction ps) (simp_all add: split_js_no_sep)

lemma filter_keep_split_join:
  "filter keep_part (split_js 0x2F (join_js (js ''/'') ps)) =
   filter keep_part (concat (map (split_js 0x2F) ps))"
proof (cases "ps = []")
  case True
  then show ?thesis by (simp add: keep_part_def)
next
  case False
  then show ?thesis by (simp add: js_slash split_js_join)
qed

lemma resolvePath_segments:
  "resolvePath paths =
   join_js (js ''/'') (filter keep_part (concat (map (split_js 0x2F) paths)))"
  by (simp add: resolvePath_def filter_keep_split_join)

lemma kept_parts_no_sep:
  "\<forall>p \<in> set (filter keep_part (concat (map (split_js sep) paths))). sep \<notin> set p"
  by (auto dest: split_js_parts_no_sep)

lemma split_resolvePath:
  "filter keep_part (split_js 0x2F (resolvePath paths)) =
   filter keep_part (concat (map (split_js 0x2F) paths))"
proof -
  let ?segs = "filter keep_part (concat (map (split_js 0x2F) paths))"
  have "filter keep_part (split_js 0x2F (join_js (js ''/'') ?segs)) =
        filter keep_part (concat (map (split_js 0x2F) ?segs))"
    by (rule filter_keep_split_join)
  also have "concat (map (split_js 0x2F) ?segs) = ?segs"
    by (rule concat_split_parts) (rule kept_parts_no_sep)
  finally show ?thesis by (simp add: resolvePath_segments)
qed


section \<open>The keys \<open>.\<close> and \<open>..\<close>\<close>





lemma split_js_dot: "split_js 0x2F (js ''.'') = [js ''.'']"
  by (simp add: js_def)










section \<open>The contract of the path resolver\<close>

lemma join_js_Cons_Cons: "join_js sep ((c # h) # t) = c # join_js sep (h # t)"
  by (cases t) simp_all

lemma join_js_Nil_Cons: "ps \<noteq> [] \<Longrightarrow> join_js sep ([] # ps) = sep @ join_js sep ps"
  by (cases ps) simp_all

lemma join_split_js: "join_js [sep] (split_js sep s) = s"
proof (induction s)
  case Nil
  show ?case by simp
next
  case (Cons c s)
  obtain h t where ht: "split_js sep s = h # t"
    using split_js_not_Nil [of sep s] by (cases "split_js sep s") auto
  show ?case
  proof (cases "c = sep")
    case True
    then show ?thesis using Cons split_js_not_Nil [of sep s] by (simp add: join_js_Nil_Cons)
  next
    case False
    then show ?thesis using Cons ht by (simp add: join_js_Cons_Cons)
  qed
qed

lemma split_join_js:
  "ps \<noteq> [] \<Longrightarrow> \<forall>p \<in> set ps. sep \<notin> set p \<Longrightarrow> split_js sep (join_js [sep] ps) = ps"
  by (simp add: split_js_join concat_split_parts)

lemma keep_part_eq: "keep_part = (\<lambda>part. part \<noteq> [] \<and> part \<noteq> js ''.'')"
  by (rule ext) (simp add: keep_part_def)

lemma resolvePath_simple:
  assumes "\<forall>p \<in> set segs. 0x2F \<notin> set p \<and> p \<noteq> [] \<and> p \<noteq> js ''.''"
  shows "resolvePath segs = join_js (js ''/'') segs"
proof -
  have "concat (map (split_js 0x2F) segs) = segs"
    using assms by (intro concat_split_parts) simp
  moreover have "filter keep_part segs = segs"
    using assms by (simp add: keep_part_def)
  ultimately show ?thesis by (simp add: resolvePath_segments)
qed

lemma resolvePath_drops_empty: "resolvePath (xs @ [] # ys) = resolvePath (xs @ ys)"
  by (simp add: resolvePath_segments keep_part_def)

lemma resolvePath_drops_dot: "resolvePath (xs @ js ''.'' # ys) = resolvePath (xs @ ys)"
  by (simp add: resolvePath_segments split_js_dot keep_part_def)

lemma resolvePath_embedded_separator:
  "resolvePath (xs @ (p @ js ''/'' @ q) # ys) = resolvePath (xs @ p # q # ys)"
  by (simp add: resolvePath_segments js_slash split_js_append_sep)

text \<open>Splitting a literal, with the rest of the string split once.\<close>

lemma split_js_Cons:
  "split_js sep (c # cs) =
     (case split_js sep cs of
        [] \<Rightarrow> []
      | h # t \<Rightarrow> if c = sep then [] # h # t else (c # h) # t)"
  using split_js_not_Nil [of sep cs] by (cases "split_js sep cs") simp_all

lemma resolvePath_examples:
  "resolvePath [] = []"
  "resolvePath [js ''/a//./b/'', js ''../c''] = js ''a/b/../c''"
  "resolvePath [js ''file:///data/files/'', js ''reduxPersist''] =
     js ''file:/data/files/reduxPersist''"
  by (simp_all add: resolvePath_def keep_part_def js_def split_js_Cons del: split_js.simps(2))

text \<open>
  C8. The path resolver is a total function of its segments alone. Splitting at the
  separator and joining with it are inverse to each other: joining the parts of a string
  gives the string back, the parts have no separator in them, and splitting the join of
  parts without separators gives the parts back. The result of the resolver is the parts
  of the segments, in their order, with every part that is empty or equal to \<open>.\<close> left out,
  joined by the separator, and splitting the result gives these parts. So segments that
  have no separator and are neither empty nor \<open>.\<close> are joined as they are, \<open>..\<close> among
  them; an empty segment and a segment \<open>.\<close> are dropped; a segment with a separator in
  it counts as the two segments around the separator.
\<close>

theorem resolvePath_contract:
  "resolvePath paths =
     join_js (js ''/'')
       (filter (\<lambda>part. part \<noteq> [] \<and> part \<noteq> js ''.'') (concat (map (split_js 0x2F) paths))) \<and>
   filter (\<lambda>part. part \<noteq> [] \<and> part \<noteq> js ''.'') (split_js 0x2F (resolvePath paths)) =
     filter (\<lambda>part. part \<noteq> [] \<and> part \<noteq> js ''.'') (concat (map (split_js 0x2F) paths)) \<and>
   join_js (js ''/'') (split_js 0x2F s) = s \<and>
   split_js 0x2F s \<noteq> [] \<and>
   (\<forall>part \<in> set (split_js 0x2F s). 0x2F \<notin> set part) \<and>
   (ps \<noteq> [] \<and> (\<forall>p \<in> set ps. 0x2F \<notin> set p) \<longrightarrow>
      split_js 0x2F (join_js (js ''/'') ps) = ps) \<and>
   ((\<forall>p \<in> set segs. 0x2F \<notin> set p \<and> p \<noteq> [] \<and> p \<noteq> js ''.'') \<longrightarrow>
      resolvePath segs = join_js (js ''/'') segs) \<and>
   resolvePath (xs @ [] # ys) = resolvePath (xs @ ys) \<and>
   resolvePath (xs @ js ''.'' # ys) = resolvePath (xs @ ys) \<and>
   resolvePath (xs @ (p @ js ''/'' @ q) # ys) = resolvePath (xs @ p # q # ys) \<and>
   resolvePath [] = [] \<and>
   resolvePath [js ''/a//./b/'', js ''../c''] = js ''a/b/../c'' \<and>
   resolvePath [js ''file:///data/files/'', js ''reduxPersist''] =
     js ''file:/data/files/reduxPersist''"
proof (intro conjI impI)
  show "resolvePath paths =
     join_js (js ''/'')
       (filter (\<lambda>part. part \<noteq> [] \<and> part \<noteq> js ''.'') (concat (map (split_js 0x2F) paths)))"
    using resolvePath_segments [of paths] by (simp only: keep_part_eq)
  show "filter (\<lambda>part. part \<noteq> [] \<and> part \<noteq> js ''.'') (split_js 0x2F (resolvePath paths)) =
     filter (\<lambda>part. part \<noteq> [] \<and> part \<noteq> js ''.'') (concat (map (split_js 0x2F) paths))"
    using split_resolvePath [of paths] by (simp only: keep_part_eq)
  show "join_js (js ''/'') (split_js 0x2F s) = s"
    by (simp only: js_slash join_split_js)
  show "split_js 0x2F s \<noteq> []" by (rule split_js_not_Nil)
  show "\<forall>part \<in> set (split_js 0x2F s). 0x2F \<notin> set part"
    using split_js_parts_no_sep by blast
  show "split_js 0x2F (join_js (js ''/'') ps) = ps"
    if "ps \<noteq> [] \<and> (\<forall>p \<in> set ps. 0x2F \<notin> set p)"
    using that split_join_js [of ps "0x2F"] by (simp add: js_slash)
  show "resolvePath segs = join_js (js ''/'') segs"
    if "\<forall>p \<in> set segs. 0x2F \<notin> set p \<and> p \<noteq> [] \<and> p \<noteq> js ''.''"
    using that by (rule resolvePath_simple)
  show "resolvePath (xs @ [] # ys) = resolvePath (xs @ ys)"
    by (rule resolvePath_drops_empty)
  show "resolvePath (xs @ js ''.'' # ys) = resolvePath (xs @ ys)"
    by (rule resolvePath_drops_dot)
  show "resolvePath (xs @ (p @ js ''/'' @ q) # ys) = resolvePath (xs @ p # q # ys)"
    by (rule resolvePath_embedded_separator)
qed (rule resolvePath_examples)+

theorem resolvePath_contract_witness:
  "0x2F \<notin> set (js ''a'') \<and> js ''a'' \<noteq> [] \<and> js ''a'' \<noteq> js ''.'' \<and>
   0x2F \<notin> set (js ''..'') \<and> js ''..'' \<noteq> [] \<and> js ''..'' \<noteq> js ''.'' \<and>
   0x2F \<notin> set (js ''b'') \<and> js ''b'' \<noteq> [] \<and> js ''b'' \<noteq> js ''.'' \<and>
   resolvePath [js ''a'', js ''..'', js ''b''] = js ''a/../b'' \<and>
   split_js 0x2F (js ''a/../b'') = [js ''a'', js ''..'', js ''b''] \<and>
   resolvePath [js ''a/./'', js '''', js ''../b''] = js ''a/../b''"
proof -
  let ?segs = "[js ''a'', js ''..'', js ''b'']"
  let ?paths = "[js ''a/./'', js '''', js ''../b'']"
  note c = resolvePath_contract [where segs = ?segs and ps = ?segs and paths = ?paths]
  have h: "\<forall>p \<in> set ?segs. 0x2F \<notin> set p \<and> p \<noteq> [] \<and> p \<noteq> js ''.''"
    by (simp add: js_def)
  have j: "join_js (js ''/'') ?segs = js ''a/../b''"
    by (simp add: js_def)
  have "resolvePath ?segs = join_js (js ''/'') ?segs"
    by (rule c [THEN conjunct2, THEN conjunct2, THEN conjunct2, THEN conjunct2, THEN conjunct2,
          THEN conjunct2, THEN conjunct1, THEN mp]) (rule h)
  then have one: "resolvePath ?segs = js ''a/../b''" unfolding j .
  have "split_js 0x2F (join_js (js ''/'') ?segs) = ?segs"
    by (rule c [THEN conjunct2, THEN conjunct2, THEN conjunct2, THEN conjunct2, THEN conjunct2,
          THEN conjunct1, THEN mp]) (simp add: js_def)
  then have two: "split_js 0x2F (js ''a/../b'') = ?segs" unfolding j .
  have "resolvePath ?paths =
      join_js (js ''/'')
       (filter (\<lambda>part. part \<noteq> [] \<and> part \<noteq> js ''.'') (concat (map (split_js 0x2F) ?paths)))"
    by (rule c [THEN conjunct1])
  also have "\<dots> = js ''a/../b''"
    by (simp add: js_def split_js_Cons del: split_js.simps(2))
  finally have three: "resolvePath ?paths = js ''a/../b''" .
  have "0x2F \<notin> set (js ''a'') \<and> js ''a'' \<noteq> [] \<and> js ''a'' \<noteq> js ''.'' \<and>
   0x2F \<notin> set (js ''..'') \<and> js ''..'' \<noteq> [] \<and> js ''..'' \<noteq> js ''.'' \<and>
   0x2F \<notin> set (js ''b'') \<and> js ''b'' \<noteq> [] \<and> js ''b'' \<noteq> js ''.''"
    by (simp add: js_def)
  with one two three show ?thesis by (simp only: simp_thms)
qed

section \<open>Percent-decoding inverts percent-encoding\<close>
















lemma of_nat_unat_16: "of_nat (unat c) = (c :: 16 word)"
  by simp

lemma unat_below: "unat (c :: 16 word) < 65536"
  using unsigned_less [of c, where ?'a = nat] by simp


lemma uriUnescaped_not_surrogate:
  "uriUnescaped c \<Longrightarrow> \<not> is_leading_surrogate c \<and> \<not> is_trailing_surrogate c"
  by (auto simp: uriUnescaped_def is_leading_surrogate_def is_trailing_surrogate_def)




lemma leading_not_trailing: "is_leading_surrogate c \<Longrightarrow> \<not> is_trailing_surrogate c"
  by (simp add: is_leading_surrogate_def is_trailing_surrogate_def)

lemma encode_escape_None:
  "encode_escape c cs = None \<Longrightarrow> \<not> well_formed (c # cs)"
  by (cases cs)
    (auto simp: encode_escape_def CodePointAt_def Let_def leading_not_trailing split: if_splits)

lemma encode_escape_count:
  "encode_escape c cs = Some (S, k) \<Longrightarrow> well_formed (c # cs) \<Longrightarrow> well_formed (drop (k - 1) cs)"
  by (cases cs)
    (auto simp: encode_escape_def CodePointAt_def Let_def leading_not_trailing split: if_splits)


lemma well_formed_encodes: "well_formed s \<Longrightarrow> \<exists>name. encodeURIComponent s = Inr name"
proof (induction s rule: encodeURIComponent.induct)
  case 1
  show ?case by simp
next
  case (2 c cs)
  show ?case
  proof (cases "uriUnescaped c")
    case True
    with "2.prems" have "well_formed cs"
      using uriUnescaped_not_surrogate [of c] by simp
    with "2.IH"(1) [OF True] True show ?thesis by auto
  next
    case False
    with "2.prems" obtain S k where e: "encode_escape c cs = Some (S, k)"
      using encode_escape_None [of c cs] by (cases "encode_escape c cs") auto
    from encode_escape_count [OF e "2.prems"] "2.IH"(2) [OF False e refl]
    obtain R where "encodeURIComponent (drop (k - 1) cs) = Inr R" by blast
    with False e show ?thesis by simp
  qed
qed

section \<open>The calling convention: callback or promise\<close>

lemmas prog_defs = return_def throw_def expr_def call_def await_def try_catch_def

text \<open>
  C4, as the code has it. Every operation is \<open>withCallback\<close> applied to its inner work. With
  a callback that returns normally, the callback is called once after the inner work,
  with \<open>(null, result)\<close> when the work resolved and with \<open>(error)\<close> when it rejected, and the
  operation resolves: with the result, or with \<open>undefined\<close> after a rejection. Without a
  callback the operation settles as its inner work does and no callback is called.
\<close>

theorem withCallback_convention:
  "(func s = (Inr result, s1) \<and> callback None result (world s1) = (Inr (), w) \<longrightarrow>
      withCallback (Some callback) func s =
        (Inr result, s1\<lparr>world := w, invocations := invocations s1 @ [(None, result)]\<rparr>)) \<and>
   (func s = (Inl err, s1) \<and> callback (Some err) Undefined (world s1) = (Inr (), w) \<longrightarrow>
      withCallback (Some callback) func s =
        (Inr Undefined,
         s1\<lparr>world := w, invocations := invocations s1 @ [(Some err, Undefined)]\<rparr>)) \<and>
   withCallback None func s = func s \<and>
   (\<exists>work. \<forall>cb. setItem env B key v cb = withCallback cb work) \<and>
   (\<exists>work. \<forall>cb. getItem env B key cb = withCallback cb work) \<and>
   (\<exists>work. \<forall>cb. removeItem env B key cb = withCallback cb work) \<and>
   (\<exists>work. \<forall>cb. getAllKeys env B cb = withCallback cb work)"
proof (intro conjI impI)
  assume "func s = (Inr result, s1) \<and> callback None result (world s1) = (Inr (), w)"
  then show "withCallback (Some callback) func s =
        (Inr result, s1\<lparr>world := w, invocations := invocations s1 @ [(None, result)]\<rparr>)"
    by (simp add: withCallback_def invoke_def prog_defs)
next
  assume "func s = (Inl err, s1) \<and> callback (Some err) Undefined (world s1) = (Inr (), w)"
  then show "withCallback (Some callback) func s =
        (Inr Undefined,
         s1\<lparr>world := w, invocations := invocations s1 @ [(Some err, Undefined)]\<rparr>)"
    by (simp add: withCallback_def invoke_def prog_defs)
next
  show "withCallback None func s = func s"
    by (cases "func s") (auto simp: withCallback_def prog_defs split: sum.splits)
next
  show "\<exists>work. \<forall>cb. setItem env B key v cb = withCallback cb work"
    unfolding setItem_def by blast
next
  show "\<exists>work. \<forall>cb. getItem env B key cb = withCallback cb work"
    unfolding getItem_def by blast
next
  show "\<exists>work. \<forall>cb. removeItem env B key cb = withCallback cb work"
    unfolding removeItem_def by blast
next
  show "\<exists>work. \<forall>cb. getAllKeys env B cb = withCallback cb work"
    unfolding getAllKeys_def by blast
qed

theorem withCallback_convention_witness:
  "return (Str (js ''1'')) (fresh_state mem_empty) = (Inr (Str (js ''1'')), fresh_state mem_empty) \<and>
   withCallback (Some (\<lambda>err result w. (Inr (), w))) (return (Str (js ''1''))) (fresh_state mem_empty) =
     (Inr (Str (js ''1'')),
      \<lparr>world = mem_empty, encryptionKey = None, invocations = [(None, Str (js ''1''))]\<rparr>) \<and>
   throw (Error (js ''no'')) (fresh_state mem_empty) = (Inl (Error (js ''no'')), fresh_state mem_empty) \<and>
   withCallback (Some (\<lambda>err result w. (Inr (), w))) (throw (Error (js ''no''))) (fresh_state mem_empty) =
     (Inr Undefined,
      \<lparr>world = mem_empty, encryptionKey = None,
       invocations = [(Some (Error (js ''no'')), Undefined)]\<rparr>)"
  using withCallback_convention [where func = "return (Str (js ''1''))"
      and s = "fresh_state mem_empty" and ?s1.0 = "fresh_state mem_empty"
      and result = "Str (js ''1'')" and callback = "\<lambda>err result w. (Inr (), w)" and w = mem_empty
      and env = mem_env and B = "[]" and key = "[]" and v = "[]"]
    withCallback_convention [where func = "throw (Error (js ''no''))"
      and s = "fresh_state mem_empty" and ?s1.0 = "fresh_state mem_empty"
      and err = "Error (js ''no'')" and callback = "\<lambda>err result w. (Inr (), w)" and w = mem_empty
      and env = mem_env and B = "[]" and key = "[]" and v = "[]"]
  by (simp add: return_def throw_def fresh_state_def)

text \<open>
  C4 as stated fails for a callback that throws: the call \<open>callback(null, result)\<close> is
  inside the \<open>try\<close> block, so its exception is caught and the callback is called a second
  time, with that exception; when the second call throws too, the operation rejects.
\<close>

theorem throwing_callback_invoked_twice:
  "getAllKeys mem_env (js ''d'') (Some (\<lambda>err result w. (Inl (Error (js ''boom'')), w)))
     (fresh_state mem_empty) =
   (Inl (Error (js ''boom'')),
    \<lparr>world = mem_empty\<lparr>mem_dirs := [js ''d'']\<rparr>, encryptionKey = None,
     invocations = [(None, Arr []), (Some (Error (js ''boom'')), Undefined)]\<rparr>)"
  by (simp add: getAllKeys_def withCallback_def invoke_def prog_defs mem_env_def
      mem_makeDirectory_def mem_readDirectory_def mem_empty_def fresh_state_def)

section \<open>The encryption key\<close>

lemma getEncryptionKey_cached:
  "encryptionKey s = Some k \<Longrightarrow> getEncryptionKey env s = (Inr k, s)"
  by (simp add: getEncryptionKey_def prog_defs)

lemma getEncryptionKey_stored:
  "encryptionKey s = None \<Longrightarrow>
   SecureStore_getItemAsync env ENCRYPTION_KEY (world s) = (Inr (Some v), w1) \<Longrightarrow> v \<noteq> [] \<Longrightarrow>
   getEncryptionKey env s = (Inr v, s\<lparr>world := w1, encryptionKey := Some v\<rparr>)"
  by (simp add: getEncryptionKey_def prog_defs)

lemma getEncryptionKey_generated:
  "encryptionKey s = None \<Longrightarrow>
   SecureStore_getItemAsync env ENCRYPTION_KEY (world s) = (Inr stored, w1) \<Longrightarrow>
   stored = None \<or> stored = Some [] \<Longrightarrow>
   uuidv4 env w1 = (Inr fresh, w2) \<Longrightarrow>
   SecureStore_setItemAsync env ENCRYPTION_KEY fresh w2 = (Inr (), w3) \<Longrightarrow>
   getEncryptionKey env s = (Inr fresh, s\<lparr>world := w3, encryptionKey := Some fresh\<rparr>)"
  by (auto simp: getEncryptionKey_def generateKey_def prog_defs)

lemma getEncryptionKey_read_fails:
  "encryptionKey s = None \<Longrightarrow>
   SecureStore_getItemAsync env ENCRYPTION_KEY (world s) = (Inl e, w1) \<Longrightarrow>
   getEncryptionKey env s =
     (Inl (Error (js ''Error getting encryption key '' @ message e)), s\<lparr>world := w1\<rparr>)"
  by (simp add: getEncryptionKey_def prog_defs)

lemma getEncryptionKey_write_fails:
  "encryptionKey s = None \<Longrightarrow>
   SecureStore_getItemAsync env ENCRYPTION_KEY (world s) = (Inr stored, w1) \<Longrightarrow>
   stored = None \<or> stored = Some [] \<Longrightarrow>
   uuidv4 env w1 = (Inr fresh, w2) \<Longrightarrow>
   SecureStore_setItemAsync env ENCRYPTION_KEY fresh w2 = (Inl e, w3) \<Longrightarrow>
   getEncryptionKey env s =
     (Inl (Error (js ''Error getting encryption key '' @ message e)), s\<lparr>world := w3\<rparr>)"
  by (auto simp: getEncryptionKey_def generateKey_def prog_defs)

lemma getEncryptionKey_Inr:
  "getEncryptionKey env s = (Inr k, s') \<Longrightarrow> encryptionKey s' = Some k"
  by (auto simp: getEncryptionKey_def generateKey_def prog_defs
      split: option.splits sum.splits prod.splits if_splits)

lemma getEncryptionKey_Inl:
  "getEncryptionKey env s = (Inl err, s') \<Longrightarrow>
   encryptionKey s = None \<and> encryptionKey s' = None \<and>
   (\<exists>e. err = Error (js ''Error getting encryption key '' @ message e))"
  by (auto simp: getEncryptionKey_def generateKey_def prog_defs
      split: option.splits sum.splits prod.splits if_splits)

text \<open>
  C5, as the code has it. With the cache empty, the secure store is read under the fixed
  name; a non-empty value found there is cached and returned; when the store has no
  value, or has the empty string, a fresh identifier is drawn, written to the store under
  the fixed name, cached and returned. With a value cached, a call returns it and leaves
  the state as it is, whatever the providers would do; after a call that resolved, the
  value is cached.
\<close>

theorem getEncryptionKey_state_machine:
  "(encryptionKey s = None \<and>
    SecureStore_getItemAsync env ENCRYPTION_KEY (world s) = (Inr (Some v), w1) \<and> v \<noteq> [] \<longrightarrow>
      getEncryptionKey env s = (Inr v, s\<lparr>world := w1, encryptionKey := Some v\<rparr>)) \<and>
   (encryptionKey s = None \<and>
    SecureStore_getItemAsync env ENCRYPTION_KEY (world s) = (Inr stored, w1) \<and>
    (stored = None \<or> stored = Some []) \<and>
    uuidv4 env w1 = (Inr fresh, w2) \<and>
    SecureStore_setItemAsync env ENCRYPTION_KEY fresh w2 = (Inr (), w3) \<longrightarrow>
      getEncryptionKey env s = (Inr fresh, s\<lparr>world := w3, encryptionKey := Some fresh\<rparr>)) \<and>
   (encryptionKey s = Some k \<longrightarrow> getEncryptionKey env s = (Inr k, s)) \<and>
   (getEncryptionKey env s = (Inr k, s') \<longrightarrow>
      encryptionKey s' = Some k \<and> getEncryptionKey env' s' = (Inr k, s'))"
  using getEncryptionKey_stored [of s env v w1]
    getEncryptionKey_generated [of s env stored w1 fresh w2 w3]
    getEncryptionKey_cached [of s k env]
    getEncryptionKey_Inr [of env s k s'] getEncryptionKey_cached [of s' k env']
  by blast

theorem getEncryptionKey_state_machine_witness:
  "getEncryptionKey mem_env
     (fresh_state (mem_empty\<lparr>mem_secrets := [(ENCRYPTION_KEY, js ''k1'')]\<rparr>)) =
     (Inr (js ''k1''),
      \<lparr>world = mem_empty\<lparr>mem_secrets := [(ENCRYPTION_KEY, js ''k1'')]\<rparr>,
       encryptionKey = Some (js ''k1''), invocations = []\<rparr>) \<and>
   getEncryptionKey mem_env (fresh_state mem_empty) =
     (Inr (js ''00000000-0000-4000-8000-000000000000''),
      \<lparr>world = mem_empty\<lparr>mem_secrets :=
          [(ENCRYPTION_KEY, js ''00000000-0000-4000-8000-000000000000'')]\<rparr>,
       encryptionKey = Some (js ''00000000-0000-4000-8000-000000000000''),
       invocations = []\<rparr>) \<and>
   getEncryptionKey mem_env
     \<lparr>world = mem_empty, encryptionKey = Some (js ''k1''), invocations = []\<rparr> =
     (Inr (js ''k1''), \<lparr>world = mem_empty, encryptionKey = Some (js ''k1''), invocations = []\<rparr>)"
proof (intro conjI)
  let ?w = "mem_empty\<lparr>mem_secrets := [(ENCRYPTION_KEY, js ''k1'')]\<rparr>"
  show "getEncryptionKey mem_env (fresh_state ?w) =
     (Inr (js ''k1''), \<lparr>world = ?w, encryptionKey = Some (js ''k1''), invocations = []\<rparr>)"
    using getEncryptionKey_state_machine [where env = mem_env and s = "fresh_state ?w"
        and v = "js ''k1''" and ?w1.0 = ?w, THEN conjunct1]
    by (simp add: fresh_state_def mem_env_def mem_getSecret_def mem_empty_def js_def)
next
  let ?u = "js ''00000000-0000-4000-8000-000000000000''"
  show "getEncryptionKey mem_env (fresh_state mem_empty) =
     (Inr ?u, \<lparr>world = mem_empty\<lparr>mem_secrets := [(ENCRYPTION_KEY, ?u)]\<rparr>,
       encryptionKey = Some ?u, invocations = []\<rparr>)"
    using getEncryptionKey_state_machine [where env = mem_env and s = "fresh_state mem_empty"
        and stored = None and ?w1.0 = mem_empty and fresh = ?u and ?w2.0 = mem_empty
        and ?w3.0 = "mem_empty\<lparr>mem_secrets := [(ENCRYPTION_KEY, ?u)]\<rparr>",
        THEN conjunct2, THEN conjunct1]
    by (simp add: fresh_state_def mem_env_def mem_getSecret_def mem_setSecret_def
        mem_uuidv4_def mem_empty_def)
next
  let ?s = "\<lparr>world = mem_empty, encryptionKey = Some (js ''k1''), invocations = []\<rparr>"
  show "getEncryptionKey mem_env ?s = (Inr (js ''k1''), ?s)"
    using getEncryptionKey_state_machine [where env = mem_env and s = ?s and k = "js ''k1''",
        THEN conjunct2, THEN conjunct2, THEN conjunct1]
    by simp
qed

text \<open>
  C5 as stated fails where the secure store holds the empty string: \<open>!encryptionKeyValue\<close>
  takes the value present for an absent one, and a fresh identifier replaces it.
\<close>

theorem empty_stored_key_is_replaced:
  "mem_getSecret ENCRYPTION_KEY (mem_empty\<lparr>mem_secrets := [(ENCRYPTION_KEY, [])]\<rparr>) =
     (Inr (Some []), mem_empty\<lparr>mem_secrets := [(ENCRYPTION_KEY, [])]\<rparr>) \<and>
   getEncryptionKey mem_env (fresh_state (mem_empty\<lparr>mem_secrets := [(ENCRYPTION_KEY, [])]\<rparr>)) =
     (Inr (js ''00000000-0000-4000-8000-000000000000''),
      \<lparr>world = mem_empty\<lparr>mem_secrets :=
          [(ENCRYPTION_KEY, js ''00000000-0000-4000-8000-000000000000'')]\<rparr>,
       encryptionKey = Some (js ''00000000-0000-4000-8000-000000000000''),
       invocations = []\<rparr>)"
  by (simp add: getEncryptionKey_def generateKey_def prog_defs mem_env_def mem_getSecret_def
      mem_setSecret_def mem_uuidv4_def mem_empty_def fresh_state_def)

text \<open>
  C6. When the read of the secure store rejects, or the read finds no key and the write of
  the fresh one rejects, \<open>getEncryptionKey\<close> throws an error whose message starts with
  \<open>Error getting encryption key\<close> and the cache stays unset. Every failure of
  \<open>getEncryptionKey\<close> is of this kind, and the call that follows reads the secure store
  again.
\<close>

theorem getEncryptionKey_failure:
  "(encryptionKey s = None \<and>
    SecureStore_getItemAsync env ENCRYPTION_KEY (world s) = (Inl e, w1) \<longrightarrow>
      getEncryptionKey env s =
        (Inl (Error (js ''Error getting encryption key '' @ message e)), s\<lparr>world := w1\<rparr>)) \<and>
   (encryptionKey s = None \<and>
    SecureStore_getItemAsync env ENCRYPTION_KEY (world s) = (Inr stored, w1) \<and>
    (stored = None \<or> stored = Some []) \<and>
    uuidv4 env w1 = (Inr fresh, w2) \<and>
    SecureStore_setItemAsync env ENCRYPTION_KEY fresh w2 = (Inl e, w3) \<longrightarrow>
      getEncryptionKey env s =
        (Inl (Error (js ''Error getting encryption key '' @ message e)), s\<lparr>world := w3\<rparr>)) \<and>
   (getEncryptionKey env s = (Inl err, s') \<longrightarrow>
      encryptionKey s' = None \<and>
      (\<exists>e'. err = Error (js ''Error getting encryption key '' @ message e')) \<and>
      (SecureStore_getItemAsync env' ENCRYPTION_KEY (world s') = (Inr (Some v), w) \<and> v \<noteq> [] \<longrightarrow>
         getEncryptionKey env' s' = (Inr v, s'\<lparr>world := w, encryptionKey := Some v\<rparr>)))"
  using getEncryptionKey_read_fails [of s env e w1]
    getEncryptionKey_write_fails [of s env stored w1 fresh w2 e w3]
    getEncryptionKey_Inl [of env s err s']
    getEncryptionKey_stored [of s' env' v w]
  by blast

theorem getEncryptionKey_failure_witness:
  "getEncryptionKey
     (mem_env\<lparr>SecureStore_getItemAsync := \<lambda>name w. (Inl (Error (js ''locked'')), w)\<rparr>)
     (fresh_state mem_empty) =
     (Inl (Error (js ''Error getting encryption key '' @ js ''locked'')), fresh_state mem_empty) \<and>
   getEncryptionKey
     (mem_env\<lparr>SecureStore_setItemAsync := \<lambda>name v w. (Inl (Error (js ''full'')), w)\<rparr>)
     (fresh_state mem_empty) =
     (Inl (Error (js ''Error getting encryption key '' @ js ''full'')), fresh_state mem_empty)"
proof (intro conjI)
  let ?env = "mem_env\<lparr>SecureStore_getItemAsync := \<lambda>name w. (Inl (Error (js ''locked'')), w)\<rparr>"
  show "getEncryptionKey ?env (fresh_state mem_empty) =
     (Inl (Error (js ''Error getting encryption key '' @ js ''locked'')), fresh_state mem_empty)"
    using getEncryptionKey_failure [where env = ?env and s = "fresh_state mem_empty"
        and e = "Error (js ''locked'')" and ?w1.0 = mem_empty, THEN conjunct1]
    by (simp add: fresh_state_def)
next
  let ?env = "mem_env\<lparr>SecureStore_setItemAsync := \<lambda>name v w. (Inl (Error (js ''full'')), w)\<rparr>"
  show "getEncryptionKey ?env (fresh_state mem_empty) =
     (Inl (Error (js ''Error getting encryption key '' @ js ''full'')), fresh_state mem_empty)"
    using getEncryptionKey_failure [where env = ?env and s = "fresh_state mem_empty"
        and stored = None and ?w1.0 = mem_empty
        and fresh = "js ''00000000-0000-4000-8000-000000000000''" and ?w2.0 = mem_empty
        and e = "Error (js ''full'')" and ?w3.0 = mem_empty, THEN conjunct2, THEN conjunct1]
    by (simp add: fresh_state_def mem_env_def mem_getSecret_def mem_uuidv4_def mem_empty_def)
qed

section \<open>The in-memory provider keeps the contracts\<close>

lemma mem_reads_back: "reads_back mem_env"
  by (auto simp: reads_back_def mem_env_def mem_write_def mem_getInfo_def mem_read_def
      mem_exists_def split: if_splits)

lemma strip_prefix_append: "strip_prefix a (a @ b) = Some b"
  by (induction a) simp_all

lemma unat_below_word8: "unat (b :: 8 word) < 256"
  using unsigned_less [of b, where ?'a = nat] by simp

lemma unat_of_nat_8: "x < 256 \<Longrightarrow> unat (of_nat x :: 8 word) = x"
  by (simp add: unat_of_nat)

lemma mem_stringify_unit_bytes:
  "mem_stringify (unit_bytes c @ bs) =
     (case mem_stringify bs of Inl e \<Rightarrow> Inl e | Inr R \<Rightarrow> Inr (c # R))"
proof -
  let ?hi = "of_nat (unat c div 256) :: 8 word" and ?lo = "of_nat (unat c mod 256) :: 8 word"
  have "unat c div 256 < 256" using unat_below [of c] by simp
  then have "unat ?hi * 256 + unat ?lo = unat c"
    by (simp add: unat_of_nat_8)
  then have eq: "(of_nat (unat ?hi * 256 + unat ?lo) :: 16 word) = c"
    by (simp only: of_nat_unat_16)
  have "mem_stringify (unit_bytes c @ bs) =
     (case mem_stringify bs of Inl e \<Rightarrow> Inl e
      | Inr R \<Rightarrow> Inr (of_nat (unat ?hi * 256 + unat ?lo) # R))"
    unfolding unit_bytes_def by (simp only: append_Cons append_Nil mem_stringify.simps)
  then show ?thesis unfolding eq .
qed

lemma mem_stringify_bytes: "mem_stringify (concat (map unit_bytes v)) = Inr v"
  by (induction v) (simp_all add: mem_stringify_unit_bytes)

lemma mem_cipher_inverts: "cipher_inverts mem_env"
  by (auto simp: cipher_inverts_def mem_env_def mem_encrypt_def mem_decrypt_def
      strip_prefix_append [of "k @ js '':''" for k, simplified] mem_stringify_bytes)

section \<open>Items\<close>

lemma withCallback_None: "withCallback None func = func"
  by (rule ext) (auto simp: withCallback_def prog_defs split: sum.splits prod.splits)

lemma well_formed_pathForKey: "well_formed key \<Longrightarrow> \<exists>p. pathForKey B key = Inr p"
  using well_formed_encodes [of key] by (auto simp: pathForKey_def)

lemma await_Inr:
  "await m f s = (Inr v, s') \<longleftrightarrow> (\<exists>x s1. m s = (Inr x, s1) \<and> f x s1 = (Inr v, s'))"
  by (cases "m s") (auto simp: await_def split: sum.splits)

lemma try_catch_throw_Inr:
  "try_catch m (\<lambda>err. throw (g err)) s = (Inr v, s') \<longleftrightarrow> m s = (Inr v, s')"
  by (cases "m s") (auto simp: try_catch_def throw_def split: sum.splits)

lemma call_Inr:
  "call f s = (Inr v, s') \<longleftrightarrow> (\<exists>w. f (world s) = (Inr v, w) \<and> s' = s\<lparr>world := w\<rparr>)"
  by (cases "f (world s)") (auto simp: call_def)

lemma setItem_Inr:
  assumes "setItem env B key v None s = (Inr r, s1)"
  shows "\<exists>p k c w w'. pathForKey B key = Inr p \<and> encryptionKey s1 = Some k \<and>
           AES_encrypt env v k w = (Inr c, w') \<and>
           writeAsStringAsync env p c w' = (Inr (), world s1)"
proof -
  from assms obtain ex sa u sb k sc c sd p se where
    k: "getEncryptionKey env sb = (Inr k, sc)" and
    c: "call (AES_encrypt env v k) sc = (Inr c, sd)" and
    p: "expr (pathForKey B key) sd = (Inr p, se)" and
    w: "call (writeAsStringAsync env p c) se = (Inr (), s1)"
    unfolding setItem_def withCallback_None try_catch_throw_Inr await_Inr
    by (auto simp: return_def)
  from p have p': "pathForKey B key = Inr p" "se = sd" by (simp_all add: expr_def)
  from c obtain w' where c': "AES_encrypt env v k (world sc) = (Inr c, w')" "sd = sc\<lparr>world := w'\<rparr>"
    unfolding call_Inr by blast
  from w p'(2) c'(2) obtain w'' where
    w': "writeAsStringAsync env p c w' = (Inr (), w'')" "s1 = sc\<lparr>world := w''\<rparr>"
    unfolding call_Inr by auto
  have "encryptionKey sc = Some k" using k by (rule getEncryptionKey_Inr)
  with w'(2) have "encryptionKey s1 = Some k" by simp
  moreover have "writeAsStringAsync env p c w' = (Inr (), world s1)" using w' by simp
  ultimately show ?thesis using p'(1) c'(1) by blast
qed

lemma getItem_run:
  assumes "pathForKey B key = Inr p" and "getInfoAsync env p (world s) = (Inr True, w1)"
    and "readAsStringAsync env p w1 = (Inr c, w2)" and "encryptionKey s = Some k"
    and "AES_decrypt env c k = Inr b" and "Utf8_stringify env b = Inr v"
  shows "getItem env B key None s = (Inr (Str v), s\<lparr>world := w2\<rparr>)"
  using assms
  by (simp add: getItem_def withCallback_None prog_defs getEncryptionKey_cached)

lemma removeItem_Inr:
  "removeItem env B key None s = (Inr r, s1) \<Longrightarrow>
   \<exists>p w. pathForKey B key = Inr p \<and> deleteAsync env p True (world s) = (Inr (), w) \<and>
     s1 = s\<lparr>world := w\<rparr> \<and> r = Undefined"
  by (auto simp: removeItem_def withCallback_None prog_defs split: sum.splits prod.splits)

lemma removeItem_run:
  "pathForKey B key = Inr p \<Longrightarrow> deleteAsync env p True (world s) = (Inr (), w) \<Longrightarrow>
   removeItem env B key None s = (Inr Undefined, s\<lparr>world := w\<rparr>)"
  by (simp add: removeItem_def withCallback_None prog_defs)

lemmas mem_defs = mem_env_def mem_getInfo_def mem_makeDirectory_def mem_write_def mem_read_def
  mem_delete_def mem_readDirectory_def mem_entry_def mem_getSecret_def mem_setSecret_def
  mem_uuidv4_def mem_encrypt_def mem_decrypt_def mem_exists_def mem_empty_def

lemma pathForKey_d_k: "pathForKey (js ''d'') (js ''k'') = Inr (js ''d/k'')"
  by (simp add: pathForKey_def resolvePath_def keep_part_def js_def uriUnescaped_def)

lemma pathForKey_lone_surrogate: "pathForKey B [0xD800] = Inl uri_malformed"
  by (simp add: pathForKey_def uriUnescaped_def encode_escape_def CodePointAt_def
      is_leading_surrogate_def is_trailing_surrogate_def)

lemma js_d_k_not_d: "js ''d/k'' \<noteq> js ''d''"
  by (simp add: js_def)

lemma well_formed_k: "well_formed (js ''k'')"
  by (simp add: js_def is_leading_surrogate_def is_trailing_surrogate_def)

text \<open>
  C1, as the code has it. Whenever \<open>setItem(key, value)\<close> has resolved, on providers where
  a written file exists and reads back as written and the cipher decrypts what it has
  encrypted, the \<open>getItem(key)\<close> that follows resolves with exactly \<open>value\<close>: the key of the
  cipher is the cached one in both calls.
\<close>

theorem setItem_getItem_roundtrip:
  "reads_back env \<and> cipher_inverts env \<and> setItem env B key v None s = (Inr r, s1) \<longrightarrow>
   (\<exists>s2. getItem env B key None s1 = (Inr (Str v), s2) \<and>
         encryptionKey s2 = encryptionKey s1)"
proof
  assume a: "reads_back env \<and> cipher_inverts env \<and> setItem env B key v None s = (Inr r, s1)"
  then obtain p k c w w' where s: "pathForKey B key = Inr p" "encryptionKey s1 = Some k"
    "AES_encrypt env v k w = (Inr c, w')" "writeAsStringAsync env p c w' = (Inr (), world s1)"
    using setItem_Inr by blast
  from a s(4) obtain w1 w2 where
    r: "getInfoAsync env p (world s1) = (Inr True, w1)" "readAsStringAsync env p w1 = (Inr c, w2)"
    unfolding reads_back_def by blast
  from a s(3) obtain b where d: "AES_decrypt env c k = Inr b" "Utf8_stringify env b = Inr v"
    unfolding cipher_inverts_def by blast
  have "getItem env B key None s1 = (Inr (Str v), s1\<lparr>world := w2\<rparr>)"
    using s(1) r s(2) d by (rule getItem_run)
  then show "\<exists>s2. getItem env B key None s1 = (Inr (Str v), s2) \<and>
         encryptionKey s2 = encryptionKey s1" by simp
qed

theorem setItem_getItem_roundtrip_witness:
  "reads_back mem_env \<and> cipher_inverts mem_env \<and>
   fst (setItem mem_env (js ''d'') (js ''k'') (js ''1'') None (fresh_state mem_empty)) =
     Inr Undefined \<and>
   fst (getItem mem_env (js ''d'') (js ''k'') None
     (snd (setItem mem_env (js ''d'') (js ''k'') (js ''1'') None (fresh_state mem_empty)))) =
     Inr (Str (js ''1''))"
proof -
  let ?set = "setItem mem_env (js ''d'') (js ''k'') (js ''1'') None (fresh_state mem_empty)"
  have a: "fst ?set = Inr Undefined"
    by (simp add: setItem_def withCallback_None getEncryptionKey_def generateKey_def prog_defs
        pathForKey_d_k js_d_k_not_d mem_defs fresh_state_def)
  then have b: "?set = (Inr Undefined, snd ?set)" by (metis prod.collapse)
  from setItem_getItem_roundtrip [where env = mem_env and B = "js ''d''" and key = "js ''k''"
      and v = "js ''1''" and s = "fresh_state mem_empty" and r = Undefined and ?s1.0 = "snd ?set"]
    mem_reads_back mem_cipher_inverts b
  obtain s2 where "getItem mem_env (js ''d'') (js ''k'') None (snd ?set) = (Inr (Str (js ''1'')), s2)"
    by blast
  then show ?thesis using a mem_reads_back mem_cipher_inverts by simp
qed

text \<open>
  C1 as stated fails for a key with an unpaired surrogate: \<open>encodeURIComponent\<close> throws, so
  \<open>setItem\<close> rejects and the \<open>getItem\<close> that follows rejects too instead of returning the
  value.
\<close>

theorem lone_surrogate_key_does_not_round_trip:
  "fst (setItem mem_env (js ''d'') [0xD800] (js ''1'') None (fresh_state mem_empty)) =
     Inl (Error (js ''Error setting item: '' @ js ''URI malformed'')) \<and>
   fst (getItem mem_env (js ''d'') [0xD800] None
     (snd (setItem mem_env (js ''d'') [0xD800] (js ''1'') None (fresh_state mem_empty)))) =
     Inl uri_malformed"
  by (simp add: setItem_def getItem_def withCallback_None getEncryptionKey_def generateKey_def
      prog_defs pathForKey_lone_surrogate mem_defs fresh_state_def uri_malformed_def)

text \<open>
  C2. When the file of a key exists and is read, and decrypting its content with the
  current encryption key throws, in \<open>AES.decrypt\<close> or in the decoding of its bytes as text,
  \<open>getItem\<close> rejects with \<open>Error getting item: Could not decrypt state:\<close> followed by the
  message of that exception; it resolves with no value.
\<close>

theorem getItem_decrypt_failure:
  "pathForKey B key = Inr p \<and> getInfoAsync env p (world s) = (Inr True, w1) \<and>
   readAsStringAsync env p w1 = (Inr c, w2) \<and>
   getEncryptionKey env (s\<lparr>world := w2\<rparr>) = (Inr k, s3) \<and>
   (AES_decrypt env c k = Inl e \<or>
    (\<exists>b. AES_decrypt env c k = Inr b \<and> Utf8_stringify env b = Inl e)) \<longrightarrow>
   getItem env B key None s =
     (Inl (Error (js ''Error getting item: '' @ js ''Could not decrypt state: '' @ message e)), s3)"
  by (auto simp: getItem_def withCallback_None prog_defs)

theorem getItem_decrypt_failure_witness:
  "getItem mem_env (js ''d'') (js ''k'') None
     (fresh_state (mem_empty\<lparr>mem_files := [(js ''d/k'', js ''k0:1'')],
        mem_secrets := [(ENCRYPTION_KEY, js ''k1'')]\<rparr>)) =
   (Inl (Error (js ''Error getting item: '' @ js ''Could not decrypt state: '' @
                js ''Malformed UTF-8 data'')),
    \<lparr>world = mem_empty\<lparr>mem_files := [(js ''d/k'', js ''k0:1'')],
        mem_secrets := [(ENCRYPTION_KEY, js ''k1'')]\<rparr>,
     encryptionKey = Some (js ''k1''), invocations = []\<rparr>)"
proof -
  let ?w = "mem_empty\<lparr>mem_files := [(js ''d/k'', js ''k0:1'')],
        mem_secrets := [(ENCRYPTION_KEY, js ''k1'')]\<rparr>"
  have k: "getEncryptionKey mem_env ((fresh_state ?w)\<lparr>world := ?w\<rparr>) =
      (Inr (js ''k1''), \<lparr>world = ?w, encryptionKey = Some (js ''k1''), invocations = []\<rparr>)"
    by (simp add: getEncryptionKey_def prog_defs mem_defs fresh_state_def js_def)
  have d: "AES_decrypt mem_env (js ''k0:1'') (js ''k1'') = Inl (Error (js ''Malformed UTF-8 data''))"
    by (simp add: mem_defs js_def)
  from getItem_decrypt_failure [where env = mem_env and B = "js ''d''" and key = "js ''k''"
      and p = "js ''d/k''" and s = "fresh_state ?w" and ?w1.0 = ?w and ?w2.0 = ?w
      and c = "js ''k0:1''" and k = "js ''k1''" and e = "Error (js ''Malformed UTF-8 data'')"
      and ?s3.0 = "\<lparr>world = ?w, encryptionKey = Some (js ''k1''), invocations = []\<rparr>"]
    pathForKey_d_k k d
  show ?thesis by (simp add: mem_defs fresh_state_def)
qed

section \<open>Listing the keys\<close>


















section \<open>Paths that do not exist\<close>























lemma removeItem_removes:
  assumes "deletes_idempotently env ex" and "pathForKey B key = Inr p"
  shows "\<exists>s1. removeItem env B key None s = (Inr Undefined, s1) \<and> \<not> ex (world s1) p \<and>
           (\<not> ex (world s) p \<longrightarrow> s1 = s)"
proof -
  from assms(1) obtain w' where w: "deleteAsync env p True (world s) = (Inr (), w')"
    "\<not> ex w' p" "\<not> ex (world s) p \<longrightarrow> w' = world s"
    unfolding deletes_idempotently_def by blast
  have "removeItem env B key None s = (Inr Undefined, s\<lparr>world := w'\<rparr>)"
    using assms(2) w(1) by (rule removeItem_run)
  with w(2,3) show ?thesis by auto
qed


lemma mem_deletes_idempotently: "deletes_idempotently mem_env (\<lambda>w p. mem_exists p w)"
  by (auto simp: deletes_idempotently_def mem_env_def mem_delete_def mem_exists_def)

section \<open>Keys that have no file\<close>





lemma pathForKey_d_dot: "pathForKey (js ''d'') (js ''.'') = Inr (js ''d'')"
  by (simp add: pathForKey_def resolvePath_def keep_part_def js_def uriUnescaped_def)

lemma well_formed_dot: "well_formed (js ''.'')"
  by (simp add: js_def is_leading_surrogate_def is_trailing_surrogate_def)



text \<open>
  The keys left out above have the base folder, or its parent, as their path. Once the
  folder exists the stat finds it, and the read of a directory fails: on the in-memory
  provider \<open>getItem\<close> of the key \<open>.\<close>, which was never written, rejects.
\<close>

theorem getItem_dot_key_in_existing_folder:
  "getItem mem_env (js ''d'') (js ''.'') None
     (fresh_state (mem_empty\<lparr>mem_dirs := [js ''d'']\<rparr>)) =
   (Inl (Error (js ''Error getting item: '' @ js ''File could not be read'')),
    fresh_state (mem_empty\<lparr>mem_dirs := [js ''d'']\<rparr>))"
  by (simp add: getItem_def withCallback_None prog_defs pathForKey_d_dot mem_defs
      fresh_state_def)

section \<open>Removing an item\<close>

text \<open>
  C10, as the code has it. A well-formed key has a path. On a filesystem whose deletion
  with the option \<open>idempotent\<close>, which \<open>removeItem\<close> always passes, resolves and leaves
  nothing at the path, and changes nothing where nothing existed: \<open>removeItem\<close> of a
  well-formed key resolves in every state, so also when the key has no file, and the
  \<open>removeItem\<close> of the key that follows resolves too and leaves the state as it is. When
  nothing exists at the path of the key, the first call already leaves the state as it is.
\<close>

theorem removeItem_idempotent:
  "(well_formed key \<longrightarrow> (\<exists>p. pathForKey B key = Inr p)) \<and>
   (deletes_idempotently env ex \<and> well_formed key \<longrightarrow>
      (\<exists>s1. removeItem env B key None s = (Inr Undefined, s1) \<and>
            removeItem env B key None s1 = (Inr Undefined, s1))) \<and>
   (deletes_idempotently env ex \<and> pathForKey B key = Inr p \<and> \<not> ex (world s) p \<longrightarrow>
      removeItem env B key None s = (Inr Undefined, s))"
proof (intro conjI impI)
  assume "well_formed key"
  then show "\<exists>p. pathForKey B key = Inr p" by (rule well_formed_pathForKey)
next
  assume a: "deletes_idempotently env ex \<and> well_formed key"
  then obtain p where p: "pathForKey B key = Inr p"
    using well_formed_pathForKey by blast
  from a p obtain s1 where s1: "removeItem env B key None s = (Inr Undefined, s1)"
    "\<not> ex (world s1) p"
    using removeItem_removes [of env ex B key p s] by blast
  from a p s1(2) have "removeItem env B key None s1 = (Inr Undefined, s1)"
    using removeItem_removes [of env ex B key p s1] by auto
  with s1(1) show "\<exists>s1. removeItem env B key None s = (Inr Undefined, s1) \<and>
            removeItem env B key None s1 = (Inr Undefined, s1)" by blast
next
  assume "deletes_idempotently env ex \<and> pathForKey B key = Inr p \<and> \<not> ex (world s) p"
  then show "removeItem env B key None s = (Inr Undefined, s)"
    using removeItem_removes [of env ex B key p s] by auto
qed

theorem removeItem_idempotent_witness:
  "well_formed (js ''k'') \<and> well_formed (js ''.'') \<and>
   removeItem mem_env (js ''d'') (js ''k'') None
     (fresh_state (mem_empty\<lparr>mem_files := [(js ''d/k'', js ''c'')], mem_dirs := [js ''d'']\<rparr>)) =
     (Inr Undefined, fresh_state (mem_empty\<lparr>mem_dirs := [js ''d'']\<rparr>)) \<and>
   removeItem mem_env (js ''d'') (js ''k'') None
     (fresh_state (mem_empty\<lparr>mem_dirs := [js ''d'']\<rparr>)) =
     (Inr Undefined, fresh_state (mem_empty\<lparr>mem_dirs := [js ''d'']\<rparr>)) \<and>
   removeItem mem_env (js ''d'') (js ''.'') None
     (fresh_state (mem_empty\<lparr>mem_dirs := [js ''d'']\<rparr>)) =
     (Inr Undefined, fresh_state mem_empty) \<and>
   removeItem mem_env (js ''d'') (js ''.'') None (fresh_state mem_empty) =
     (Inr Undefined, fresh_state mem_empty)"
proof -
  let ?ex = "\<lambda>w p. mem_exists p w"
  let ?s = "fresh_state (mem_empty\<lparr>mem_files := [(js ''d/k'', js ''c'')], mem_dirs := [js ''d'']\<rparr>)"
  let ?t = "fresh_state (mem_empty\<lparr>mem_dirs := [js ''d'']\<rparr>)"
  have first: "removeItem mem_env (js ''d'') (js ''k'') None ?s = (Inr Undefined, ?t)"
    by (simp add: removeItem_def withCallback_None prog_defs pathForKey_d_k js_d_k_not_d
        js_d_k_not_d [symmetric] mem_defs fresh_state_def)
  have first': "removeItem mem_env (js ''d'') (js ''.'') None ?t =
      (Inr Undefined, fresh_state mem_empty)"
    by (simp add: removeItem_def withCallback_None prog_defs pathForKey_d_dot mem_defs
        fresh_state_def)
  have "\<exists>s1. removeItem mem_env (js ''d'') (js ''k'') None ?s = (Inr Undefined, s1) \<and>
            removeItem mem_env (js ''d'') (js ''k'') None s1 = (Inr Undefined, s1)"
    by (rule removeItem_idempotent [where env = mem_env and ex = ?ex and B = "js ''d''"
          and key = "js ''k''" and s = ?s, THEN conjunct2, THEN conjunct1, THEN mp])
      (intro conjI mem_deletes_idempotently well_formed_k)
  with first have again: "removeItem mem_env (js ''d'') (js ''k'') None ?t = (Inr Undefined, ?t)"
    by auto
  have "\<exists>s1. removeItem mem_env (js ''d'') (js ''.'') None ?t = (Inr Undefined, s1) \<and>
            removeItem mem_env (js ''d'') (js ''.'') None s1 = (Inr Undefined, s1)"
    by (rule removeItem_idempotent [where env = mem_env and ex = ?ex and B = "js ''d''"
          and key = "js ''.''" and s = ?t, THEN conjunct2, THEN conjunct1, THEN mp])
      (intro conjI mem_deletes_idempotently well_formed_dot)
  with first' have again': "removeItem mem_env (js ''d'') (js ''.'') None (fresh_state mem_empty) =
      (Inr Undefined, fresh_state mem_empty)"
    by auto
  from well_formed_k well_formed_dot first again first' again' show ?thesis by (intro conjI)
qed

text \<open>
  C10 as stated fails for a key with an unpaired surrogate: no file exists for it, and
  \<open>removeItem\<close> rejects with the \<open>URIError\<close> of \<open>encodeURIComponent\<close>.
\<close>

theorem removeItem_lone_surrogate_key_raises:
  "removeItem mem_env (js ''d'') [0xD800] None (fresh_state mem_empty) =
     (Inl uri_malformed, fresh_state mem_empty)"
  by (simp add: removeItem_def withCallback_None prog_defs pathForKey_lone_surrogate)

end
